theory Spec2Isabelle
  imports Complex_Main "HOL-Library.AList" "HOL-Library.Char_ord" "HOL-Library.List_Lexorder"
begin

section \<open>Strings\<close>

text \<open>
  A Python \<^verbatim>\<open>str\<close> is modelled as a \<^typ>\<open>string\<close>; a \<^typ>\<open>char\<close> stands for the code
  point of the same number, so texts with code points above 255 are outside the model.
  \<^verbatim>\<open>None\<close> is \<^term>\<open>None\<close>; a JSON field that a request leaves out reads as \<^verbatim>\<open>None\<close>
  through \<^verbatim>\<open>data.get\<close>.
\<close>

definition isspace :: "char \<Rightarrow> bool" where
  \<comment> \<open>\<^verbatim>\<open>str.isspace\<close> on one character: tab, LF, VT, FF, CR, FS, GS, RS, US, space, NEL, NBSP\<close>
  "isspace c = (of_char c \<in> {9, 10, 11, 12, 13, 28, 29, 30, 31, 32, 133, 160 :: nat})"

definition truthy :: "string option \<Rightarrow> bool" where
  \<comment> \<open>the truth value of an optional string: \<^verbatim>\<open>None\<close> and \<^verbatim>\<open>""\<close> are false\<close>
  "truthy v = (case v of None \<Rightarrow> False | Some s \<Rightarrow> s \<noteq> [])"

fun split_on :: "char \<Rightarrow> string \<Rightarrow> string list" where
  \<comment> \<open>\<^verbatim>\<open>s.split(sep)\<close> for a one-character separator; the empty string gives \<^verbatim>\<open>['']\<close>\<close>
  "split_on sep [] = [[]]"
| "split_on sep (c # cs) =
     (if c = sep then [] # split_on sep cs
      else (case split_on sep cs of [] \<Rightarrow> [[c]] | l # ls \<Rightarrow> (c # l) # ls))"

fun join :: "string \<Rightarrow> string list \<Rightarrow> string" where
  \<comment> \<open>\<^verbatim>\<open>sep.join(xs)\<close>\<close>
  "join sep [] = []"
| "join sep [x] = x"
| "join sep (x # y # ys) = x @ sep @ join sep (y # ys)"

definition strip :: "string \<Rightarrow> string" where
  \<comment> \<open>\<^verbatim>\<open>s.strip()\<close>\<close>
  "strip s = rev (dropWhile isspace (rev (dropWhile isspace s)))"

function split_ws :: "string \<Rightarrow> string list" where
  \<comment> \<open>\<^verbatim>\<open>s.split()\<close>: skip whitespace, take the run up to the next whitespace, repeat\<close>
  "split_ws s =
     (case dropWhile isspace s of
        [] \<Rightarrow> []
      | c # cs \<Rightarrow>
          (c # takeWhile (\<lambda>x. \<not> isspace x) cs) # split_ws (dropWhile (\<lambda>x. \<not> isspace x) cs))"
  by pat_completeness auto
termination
proof (relation "measure length", goal_cases)
  case 1
  show ?case by simp
next
  case (2 s c cs)
  have "length (dropWhile (\<lambda>x. \<not> isspace x) cs) \<le> length cs"
    by (rule length_dropWhile_le)
  moreover have "length (dropWhile isspace s) \<le> length s"
    by (rule length_dropWhile_le)
  ultimately show ?case using 2 by simp
qed

declare split_ws.simps [simp del]

fun replace_md :: "string \<Rightarrow> string" where
  \<comment> \<open>\<^verbatim>\<open>s.replace('.md', '')\<close>: every occurrence, left to right\<close>
  "replace_md (a # b # c # cs) =
     (if [a, b, c] = ''.md'' then replace_md cs else a # replace_md (b # c # cs))"
| "replace_md cs = cs"

definition path_name :: "string \<Rightarrow> string" where
  \<comment> \<open>\<^verbatim>\<open>filepath.name\<close>: the last component of a path that ends in \<^verbatim>\<open>.md\<close>\<close>
  "path_name p = rev (takeWhile (\<lambda>c. c \<noteq> CHR ''/'') (rev p))"

definition dir_name :: "string \<Rightarrow> string" where
  \<comment> \<open>the part of a path before its last \<^verbatim>\<open>/\<close>\<close>
  "dir_name p = rev (drop 1 (dropWhile (\<lambda>c. c \<noteq> CHR ''/'') (rev p)))"

fun universal_newlines :: "string \<Rightarrow> string" where
  \<comment> \<open>what a file opened in text mode hands to the reader: CR LF and a lone CR become LF\<close>
  "universal_newlines (a # b # cs) =
     (if a = CHR 0x0D
      then (if b = CHR ''\<newline>'' then CHR ''\<newline>'' # universal_newlines cs
            else CHR ''\<newline>'' # universal_newlines (b # cs))
      else a # universal_newlines (b # cs))"
| "universal_newlines [a] = (if a = CHR 0x0D then ''\<newline>'' else [a])"
| "universal_newlines [] = []"

section \<open>Derived fields\<close>

definition h1_match :: "string \<Rightarrow> bool" where
  \<comment> \<open>a line (a maximal segment without LF) that \<^verbatim>\<open>^# (.+)$\<close> matches under \<^verbatim>\<open>re.MULTILINE\<close>:
      the marker and at least one more character, none of them LF\<close>
  "h1_match l = (take 2 l = ''# '' \<and> 2 < length l)"

definition extract_title :: "string \<Rightarrow> string" where
  \<comment> \<open>\<^verbatim>\<open>re.search\<close> returns the leftmost match, that is the first matching line;
      \<^verbatim>\<open>group(1)\<close> is the line without its first two characters\<close>
  "extract_title content =
     (case find h1_match (split_on CHR ''\<newline>'' content) of
        Some l \<Rightarrow> strip (drop 2 l)
      | None \<Rightarrow> ''Untitled'')"

definition count_words :: "string \<Rightarrow> int" where
  "count_words content = int (length (split_ws content))"

section \<open>Dates\<close>

datatype error =
    InvalidStatus   \<comment> \<open>400 \<^verbatim>\<open>Invalid status\<close>\<close>
  | InvalidRequest  \<comment> \<open>400 \<^verbatim>\<open>Articles and start date required\<close>\<close>
  | NotFound        \<comment> \<open>404 \<^verbatim>\<open>Article not found\<close>\<close>
  | ValueError      \<comment> \<open>the Python exception, not caught by the handler\<close>
  | TypeError       \<comment> \<open>the Python exception, not caught by the handler\<close>
  | FileNotFoundError  \<comment> \<open>the Python exception, not caught by the handler\<close>

record datetime =
  year :: int
  month :: int
  day :: int
  hour :: int
  minute :: int
  second :: int
  microsecond :: int
  tzinfo :: "int option"

definition is_leap :: "int \<Rightarrow> bool" where
  "is_leap y = (y mod 4 = 0 \<and> (y mod 100 \<noteq> 0 \<or> y mod 400 = 0))"

definition days_in_month :: "int \<Rightarrow> int \<Rightarrow> int" where
  "days_in_month y m =
     (if m = 2 then (if is_leap y then 29 else 28)
      else if m = 4 \<or> m = 6 \<or> m = 9 \<or> m = 11 then 30 else 31)"

definition days_before_year :: "int \<Rightarrow> int" where
  "days_before_year y = (y - 1) * 365 + (y - 1) div 4 - (y - 1) div 100 + (y - 1) div 400"

definition days_before_month :: "int \<Rightarrow> int \<Rightarrow> int" where
  "days_before_month y m = sum_list (map (days_in_month y) [1..m - 1])"

definition toordinal :: "datetime \<Rightarrow> int" where
  "toordinal d = days_before_year (year d) + days_before_month (year d) (month d) + day d"

definition microseconds :: "datetime \<Rightarrow> int" where
  \<comment> \<open>the position of a naive datetime on the time line, in microseconds\<close>
  "microseconds d =
     (((toordinal d * 24 + hour d) * 60 + minute d) * 60 + second d) * 1000000 + microsecond d"

definition timedelta_days :: "datetime \<Rightarrow> datetime \<Rightarrow> int" where
  \<comment> \<open>\<^verbatim>\<open>(a - b).days\<close> of two naive datetimes: a normalised timedelta has
      \<^verbatim>\<open>0 <= seconds < 86400\<close>, so its days are the floor\<close>
  "timedelta_days a b = (microseconds a - microseconds b) div 86400000000"

definition replace_day :: "datetime \<Rightarrow> int \<Rightarrow> error + datetime" where
  \<comment> \<open>\<^verbatim>\<open>d.replace(day=n)\<close>: the constructor refuses a day outside the month\<close>
  "replace_day d n =
     (if 1 \<le> n \<and> n \<le> days_in_month (year d) (month d) then Inr (d\<lparr>day := n\<rparr>)
      else Inl ValueError)"

definition digit :: "int \<Rightarrow> char" where
  "digit n = ''0123456789'' ! nat n"

definition pad2 :: "int \<Rightarrow> string" where
  "pad2 n = [digit (n div 10), digit (n mod 10)]"

definition pad4 :: "int \<Rightarrow> string" where
  "pad4 n = [digit (n div 1000), digit (n div 100 mod 10), digit (n div 10 mod 10), digit (n mod 10)]"

definition isoformat16 :: "datetime \<Rightarrow> string" where
  \<comment> \<open>\<^verbatim>\<open>d.isoformat()[:16]\<close>: the ISO text starts with \<^verbatim>\<open>YYYY-MM-DDTHH:MM\<close>\<close>
  "isoformat16 d =
     pad4 (year d) @ ''-'' @ pad2 (month d) @ ''-'' @ pad2 (day d) @ ''T''
       @ pad2 (hour d) @ '':'' @ pad2 (minute d)"

definition number :: "string \<Rightarrow> int option" where
  "number s =
     (if s \<noteq> [] \<and> list_all (\<lambda>c. c \<in> set ''0123456789'') s
      then Some (foldl (\<lambda>a c. 10 * a + (int (of_char c) - 48)) 0 s) else None)"

definition make_datetime :: "int \<Rightarrow> int \<Rightarrow> int \<Rightarrow> int \<Rightarrow> int \<Rightarrow> error + datetime" where
  "make_datetime y m d h mi =
     (if 1 \<le> y \<and> y \<le> 9999 \<and> 1 \<le> m \<and> m \<le> 12 \<and> 1 \<le> d \<and> d \<le> days_in_month y m
         \<and> 0 \<le> h \<and> h < 24 \<and> 0 \<le> mi \<and> mi < 60
      then Inr \<lparr>year = y, month = m, day = d, hour = h, minute = mi, second = 0,
                microsecond = 0, tzinfo = None\<rparr>
      else Inl ValueError)"

definition fromisoformat :: "string \<Rightarrow> error + datetime" where
  \<comment> \<open>\<^verbatim>\<open>datetime.fromisoformat\<close> on the layouts \<^verbatim>\<open>YYYY-MM-DD\<close> and \<^verbatim>\<open>YYYY-MM-DDTHH:MM\<close>.
      The library accepts more layouts than these two; the operations below take the
      parser as a parameter, and this one serves the concrete examples.\<close>
  "fromisoformat s =
     (if (length s = 10 \<or> length s = 16) \<and> s ! 4 = CHR ''-'' \<and> s ! 7 = CHR ''-''
         \<and> (length s = 16 \<longrightarrow> s ! 10 = CHR ''T'' \<and> s ! 13 = CHR '':'')
      then
        (case (number (take 4 s), number (take 2 (drop 5 s)), number (take 2 (drop 8 s)),
               if length s = 16 then number (take 2 (drop 11 s)) else Some 0,
               if length s = 16 then number (take 2 (drop 14 s)) else Some 0) of
           (Some y, Some m, Some d, Some h, Some mi) \<Rightarrow> make_datetime y m d h mi
         | _ \<Rightarrow> Inl ValueError)
      else Inl ValueError)"

section \<open>The article store\<close>

record metadata =
  status :: string
  publishDate :: "string option"
  sources :: "string list"
  wordGoal :: int

text \<open>
  The files are an association list from a path, written as \<^verbatim>\<open>DRAFTS_DIR / path\<close> spells
  it, to the text on disk (\<^term>\<open>map_of\<close> looks a path up); a path without \<^verbatim>\<open>/\<close> is an
  entry of the drafts directory itself. \<open>dirs\<close> lists the directories, as the paths
  spell them, in which a file can be created besides the drafts directory; no operation
  changes them, since the code creates no directory but \<^verbatim>\<open>DRAFTS_DIR\<close>. Two spellings of
  one file are two paths of the model. \<^verbatim>\<open>article_metadata\<close> is the global dictionary. A
  drafts directory that does not exist lists like an empty one. Every route but the create
  route takes the id from one segment of the URL, so an id has no \<^verbatim>\<open>/\<close> there.
\<close>

record state =
  files :: "(string \<times> string) list"
  dirs :: "string list"
  article_metadata :: "string \<rightharpoonup> metadata"

record article =
  art_id :: string
  art_filename :: string
  art_title :: string
  art_wordCount :: int
  art_status :: string
  art_publishDate :: "string option"
  art_sources :: "string list"
  art_wordGoal :: int
  art_content :: string

record listing =
  item_id :: string
  item_filename :: string
  item_title :: string
  item_wordCount :: int
  item_status :: string
  item_publishDate :: "string option"
  item_wordGoal :: int

record notification =
  note_type :: string
  note_title :: string
  note_article :: string
  note_date :: string

definition default_metadata :: metadata where
  "default_metadata = \<lparr>status = ''draft'', publishDate = None, sources = [], wordGoal = 1000\<rparr>"

definition load_article_metadata :: "string \<Rightarrow> state \<Rightarrow> metadata \<times> state" where
  "load_article_metadata article_id st =
     (case article_metadata st article_id of
        None \<Rightarrow>
          (default_metadata,
           st\<lparr>article_metadata := (article_metadata st)(article_id \<mapsto> default_metadata)\<rparr>)
      | Some m \<Rightarrow> (m, st))"

definition save_article_metadata :: "string \<Rightarrow> metadata \<Rightarrow> state \<Rightarrow> state" where
  "save_article_metadata article_id m st =
     st\<lparr>article_metadata := (article_metadata st)(article_id \<mapsto> m)\<rparr>"

definition filepath_of :: "string \<Rightarrow> string" where
  \<comment> \<open>\<^verbatim>\<open>DRAFTS_DIR / f"{article_id}.md"\<close>, as a path below \<^verbatim>\<open>DRAFTS_DIR\<close>\<close>
  "filepath_of article_id = article_id @ ''.md''"

definition get_article_info :: "string \<Rightarrow> state \<Rightarrow> article \<times> state" where
  "get_article_info filepath st =
     (let content = (case map_of (files st) filepath of
                       Some text \<Rightarrow> universal_newlines text
                     | None \<Rightarrow> []);
          filename = path_name filepath;
          article_id = replace_md filename;
          (m, st') = load_article_metadata article_id st
      in (\<lparr>art_id = article_id, art_filename = filename,
           art_title = (if content \<noteq> [] then extract_title content else ''Untitled''),
           art_wordCount = (if content \<noteq> [] then count_words content else 0),
           art_status = status m, art_publishDate = publishDate m,
           art_sources = sources m, art_wordGoal = wordGoal m,
           art_content = content\<rparr>, st'))"

definition glob_md :: "string \<Rightarrow> bool" where
  \<comment> \<open>\<^verbatim>\<open>DRAFTS_DIR.glob("*.md")\<close>: an entry of the directory itself whose name ends in \<^verbatim>\<open>.md\<close>\<close>
  "glob_md p = (CHR ''/'' \<notin> set p \<and> 3 \<le> length p \<and> drop (length p - 3) p = ''.md'')"

definition listing_of :: "article \<Rightarrow> listing" where
  "listing_of info =
     \<lparr>item_id = art_id info, item_filename = art_filename info, item_title = art_title info,
      item_wordCount = art_wordCount info, item_status = art_status info,
      item_publishDate = art_publishDate info, item_wordGoal = art_wordGoal info\<rparr>"

fun list_loop :: "string list \<Rightarrow> listing list \<Rightarrow> state \<Rightarrow> listing list \<times> state" where
  "list_loop [] articles st = (articles, st)"
| "list_loop (filepath # rest) articles st =
     (let (info, st') = get_article_info filepath st
      in list_loop rest (articles @ [listing_of info]) st')"

definition list_articles :: "state \<Rightarrow> listing list \<times> state" where
  "list_articles st = list_loop (sort (filter glob_md (map fst (files st)))) [] st"

definition get_article :: "string \<Rightarrow> state \<Rightarrow> article option \<times> state" where
  "get_article article_id st =
     (let filepath = filepath_of article_id
      in if map_of (files st) filepath = None then (None, st)
         else (let (info, st') = get_article_info filepath st in (Some info, st')))"

definition rewrite_title :: "string \<Rightarrow> string \<Rightarrow> string" where
  \<comment> \<open>lines 127 to 132: drop the lines that start with the marker, put the new heading first\<close>
  "rewrite_title title content =
     ''# '' @ title @ ''\<newline>\<newline>''
       @ join ''\<newline>'' (filter (\<lambda>line. take 2 line \<noteq> ''# '') (split_on CHR ''\<newline>'' content))"

definition write_error :: "string \<Rightarrow> state \<Rightarrow> error option" where
  \<comment> \<open>why \<^verbatim>\<open>open(filepath, 'w')\<close> raises: a NUL in the path, or a directory that is not there\<close>
  "write_error filepath st =
     (if CHR 0x00 \<in> set filepath then Some ValueError
      else if CHR ''/'' \<in> set filepath \<and> dir_name filepath \<notin> set (dirs st)
      then Some FileNotFoundError
      else None)"

definition write_text :: "string \<Rightarrow> string \<Rightarrow> state \<Rightarrow> error + state" where
  \<comment> \<open>\<^verbatim>\<open>filepath.write_text(text, encoding='utf-8')\<close>; the drafts directory is on a system
      whose line separator is LF, so the text is written as it is\<close>
  "write_text filepath text st =
     (case write_error filepath st of
        Some e \<Rightarrow> Inl e
      | None \<Rightarrow> Inr (st\<lparr>files := AList.update filepath text (files st)\<rparr>))"

definition save_article ::
  "string \<Rightarrow> string option \<Rightarrow> string option \<Rightarrow> string option \<Rightarrow> string list option
     \<Rightarrow> string option \<Rightarrow> int option \<Rightarrow> state \<Rightarrow> (error + article) \<times> state" where
  \<comment> \<open>an exception of the write leaves the function before the metadata is touched\<close>
  "save_article article_id title content new_status new_sources new_publishDate new_wordGoal st =
     (let filepath = filepath_of article_id
      in case (case content of
                 None \<Rightarrow> Inr st
               | Some text \<Rightarrow>
                   write_text filepath
                     (if truthy title then rewrite_title (the title) text else text) st) of
           Inl e \<Rightarrow> (Inl e, st)
         | Inr st1 \<Rightarrow>
             (let (m, st2) = load_article_metadata article_id st1;
                  m1 = (case new_status of None \<Rightarrow> m | Some v \<Rightarrow> m\<lparr>status := v\<rparr>);
                  m2 = (case new_sources of None \<Rightarrow> m1 | Some v \<Rightarrow> m1\<lparr>sources := v\<rparr>);
                  m3 = (case new_publishDate of
                          None \<Rightarrow> m2
                        | Some v \<Rightarrow> m2\<lparr>publishDate := Some v\<rparr>);
                  m4 = (case new_wordGoal of None \<Rightarrow> m3 | Some v \<Rightarrow> m3\<lparr>wordGoal := v\<rparr>);
                  (info, st3) =
                    get_article_info filepath (save_article_metadata article_id m4 st2)
              in (Inr info, st3)))"

section \<open>Request handlers\<close>

definition valid_statuses :: "string list" where
  "valid_statuses = [''draft'', ''review'', ''scheduled'', ''published'']"

definition do_POST_status ::
  "string \<Rightarrow> string option \<Rightarrow> string option \<Rightarrow> state
     \<Rightarrow> (error + string \<times> string option) \<times> state" where
  \<comment> \<open>\<^verbatim>\<open>POST /api/articles/<id>/status\<close>; the answer repeats the request's publishDate\<close>
  "do_POST_status article_id new_status new_publishDate st =
     (case new_status of
        None \<Rightarrow> (Inl InvalidStatus, st)
      | Some s \<Rightarrow>
          if s \<notin> set valid_statuses then (Inl InvalidStatus, st)
          else
            (let (m, st1) = load_article_metadata article_id st;
                 m1 = m\<lparr>status := s\<rparr>;
                 m2 = (if truthy new_publishDate then m1\<lparr>publishDate := new_publishDate\<rparr> else m1)
             in (Inr (s, new_publishDate), save_article_metadata article_id m2 st1)))"

definition do_POST_schedule :: "string \<Rightarrow> string option \<Rightarrow> state \<Rightarrow> string option \<times> state" where
  \<comment> \<open>\<^verbatim>\<open>POST /api/articles/<id>/schedule\<close>\<close>
  "do_POST_schedule article_id new_publishDate st =
     (let (m, st1) = load_article_metadata article_id st;
          m1 = m\<lparr>publishDate := new_publishDate\<rparr>;
          m2 = m1\<lparr>status := ''scheduled''\<rparr>
      in (new_publishDate, save_article_metadata article_id m2 st1))"

fun schedule_loop ::
  "int \<Rightarrow> string list \<Rightarrow> datetime \<Rightarrow> (string \<times> string) list \<Rightarrow> state
     \<Rightarrow> (error + (string \<times> string) list) \<times> state" where
  \<comment> \<open>the loop of lines 351 to 358; an exception leaves the records written so far\<close>
  "schedule_loop intervalDays [] currentDate results st = (Inr results, st)"
| "schedule_loop intervalDays (article_id # rest) currentDate results st =
     (let date = isoformat16 currentDate;
          (m, st1) = load_article_metadata article_id st;
          m1 = m\<lparr>status := ''scheduled''\<rparr>;
          m2 = m1\<lparr>publishDate := Some date\<rparr>;
          st2 = save_article_metadata article_id m2 st1;
          results' = results @ [(article_id, date)]
      in (case replace_day currentDate (day currentDate + intervalDays) of
            Inl e \<Rightarrow> (Inl e, st2)
          | Inr next_date \<Rightarrow> schedule_loop intervalDays rest next_date results' st2))"

definition do_POST_bulk_schedule ::
  "(string \<Rightarrow> error + datetime) \<Rightarrow> string list \<Rightarrow> string option \<Rightarrow> int \<Rightarrow> state
     \<Rightarrow> (error + (string \<times> string) list) \<times> state" where
  \<comment> \<open>\<^verbatim>\<open>POST /api/bulk-schedule\<close>; \<open>parse\<close> is \<^verbatim>\<open>datetime.fromisoformat\<close>\<close>
  "do_POST_bulk_schedule parse articles startDate intervalDays st =
     (if articles = [] \<or> \<not> truthy startDate then (Inl InvalidRequest, st)
      else (case parse (the startDate) of
              Inl e \<Rightarrow> (Inl e, st)
            | Inr currentDate \<Rightarrow> schedule_loop intervalDays articles currentDate [] st))"

definition reminder :: "string \<Rightarrow> listing \<Rightarrow> notification" where
  "reminder subtype a =
     \<lparr>note_type = ''reminder'', note_title = subtype, note_article = item_title a,
      note_date = the (item_publishDate a)\<rparr>"

fun notify_loop ::
  "(string \<Rightarrow> error + datetime) \<Rightarrow> datetime \<Rightarrow> listing list \<Rightarrow> notification list
     \<Rightarrow> error + notification list" where
  \<comment> \<open>the loop of lines 382 to 400; \<open>now\<close> is naive, so an aware publish date cannot be subtracted\<close>
  "notify_loop parse now [] notifications = Inr notifications"
| "notify_loop parse now (a # rest) notifications =
     (if truthy (item_publishDate a) then
        (case parse (the (item_publishDate a)) of
           Inl e \<Rightarrow> Inl e
         | Inr date \<Rightarrow>
             if tzinfo date \<noteq> None then Inl TypeError
             else
               (let daysUntil = timedelta_days date now
                in if daysUntil = 1
                   then notify_loop parse now rest
                          (notifications @ [reminder ''Publishing Tomorrow'' a])
                   else if daysUntil = 7
                   then notify_loop parse now rest
                          (notifications @ [reminder ''Publishing in 1 Week'' a])
                   else notify_loop parse now rest notifications))
      else notify_loop parse now rest notifications)"

definition do_POST_notifications ::
  "(string \<Rightarrow> error + datetime) \<Rightarrow> datetime \<Rightarrow> state \<Rightarrow> (error + notification list) \<times> state" where
  \<comment> \<open>\<^verbatim>\<open>POST /api/notifications\<close>; \<open>now\<close> is the value of \<^verbatim>\<open>datetime.now()\<close>\<close>
  "do_POST_notifications parse now st =
     (let (articles, st') = list_articles st in (notify_loop parse now articles [], st'))"

definition do_DELETE :: "string \<Rightarrow> state \<Rightarrow> (error + unit) \<times> state" where
  \<comment> \<open>\<^verbatim>\<open>DELETE /api/articles/<id>\<close>\<close>
  "do_DELETE article_id st =
     (let filepath = filepath_of article_id
      in if map_of (files st) filepath \<noteq> None
         then (Inr (),
               st\<lparr>files := AList.delete filepath (files st),
                  article_metadata := (article_metadata st)(article_id := None)\<rparr>)
         else (Inl NotFound, st))"

section \<open>The operations of the service\<close>

text \<open>
  The eight operations the service offers, with the state each one leaves behind.
\<close>

datatype request =
    ListArticles
  | GetArticle string
  | SaveArticle string "string option" "string option" "string option" "string list option"
      "string option" "int option"
  | SetArticleStatus string "string option" "string option"
  | ScheduleArticle string "string option"
  | BulkSchedule "string list" "string option" int
  | DeleteArticle string
  | PendingReminders datetime

fun serve :: "(string \<Rightarrow> error + datetime) \<Rightarrow> request \<Rightarrow> state \<Rightarrow> state" where
  "serve parse ListArticles st = snd (list_articles st)"
| "serve parse (GetArticle i) st = snd (get_article i st)"
| "serve parse (SaveArticle i title content s src pd wg) st =
     snd (save_article i title content s src pd wg st)"
| "serve parse (SetArticleStatus i s pd) st = snd (do_POST_status i s pd st)"
| "serve parse (ScheduleArticle i pd) st = snd (do_POST_schedule i pd st)"
| "serve parse (BulkSchedule ids startDate intervalDays) st =
     snd (do_POST_bulk_schedule parse ids startDate intervalDays st)"
| "serve parse (DeleteArticle i) st = snd (do_DELETE i st)"
| "serve parse (PendingReminders now) st = snd (do_POST_notifications parse now st)"

section \<open>Notions of the specification\<close>

text \<open>
  A token starts where a character that is not whitespace stands first in the text or
  right after a whitespace character; each maximal run of such characters has one start.
\<close>

definition token_start :: "string \<Rightarrow> nat \<Rightarrow> bool" where
  "token_start s i = (i < length s \<and> \<not> isspace (s ! i) \<and> (i = 0 \<or> isspace (s ! (i - 1))))"

definition token_count :: "string \<Rightarrow> nat" where
  "token_count s = card {i. token_start s i}"

text \<open>
  Two auxiliary readings of the same count, for the proofs: \<open>starts b s\<close> are the token
  starts of \<open>s\<close> when \<open>b\<close> tells whether position 0 may start one, \<open>runs b s\<close> counts them
  from left to right.
\<close>

definition starts :: "bool \<Rightarrow> string \<Rightarrow> nat set" where
  "starts b s =
     {i. i < length s \<and> \<not> isspace (s ! i) \<and> (if i = 0 then b else isspace (s ! (i - 1)))}"

fun runs :: "bool \<Rightarrow> string \<Rightarrow> nat" where
  "runs b [] = 0"
| "runs b (c # cs) = (if \<not> isspace c \<and> b then 1 else 0) + runs (isspace c) cs"

text \<open>
  The record the overlay shows for an id: the stored one, or the defaults while none is
  stored.
\<close>

definition current_metadata :: "state \<Rightarrow> string \<Rightarrow> metadata" where
  "current_metadata st i =
     (case article_metadata st i of None \<Rightarrow> default_metadata | Some m \<Rightarrow> m)"



section \<open>Example states\<close>

definition st_empty :: state where
  \<comment> \<open>no document, no subdirectory, no record\<close>
  "st_empty = \<lparr>files = [], dirs = [], article_metadata = Map.empty\<rparr>"

definition st_review :: state where
  \<comment> \<open>a record for \<^verbatim>\<open>a\<close>, in review and dated, without a document\<close>
  "st_review =
     \<lparr>files = [], dirs = [],
      article_metadata =
        [''a'' \<mapsto> \<lparr>status = ''review'', publishDate = Some ''2024-05-01'', sources = [],
                   wordGoal = 500\<rparr>]\<rparr>"

definition st_hello :: state where
  \<comment> \<open>one document, no record\<close>
  "st_hello =
     \<lparr>files = [(''hello.md'', ''# Hello\<newline>\<newline>World'')], dirs = [],
      article_metadata = Map.empty\<rparr>"



section \<open>Splitting and joining lines\<close>

lemma split_on_no_sep: "sep \<notin> set x \<Longrightarrow> split_on sep x = [x]"
  by (induction x) auto

lemma split_on_append_sep:
  "sep \<notin> set x \<Longrightarrow> split_on sep (x @ sep # rest) = x # split_on sep rest"
  by (induction x) auto

lemma split_on_join:
  "ls \<noteq> [] \<Longrightarrow> \<forall>l\<in>set ls. sep \<notin> set l \<Longrightarrow> split_on sep (join [sep] ls) = ls"
proof (induction "[sep]" ls rule: join.induct)
  case 1
  then show ?case by simp
next
  case (2 x)
  then show ?case by (simp add: split_on_no_sep)
next
  case (3 x y ys)
  then show ?case by (simp add: split_on_append_sep)
qed

lemma find_first:
  "\<forall>x\<in>set pre. \<not> P x \<Longrightarrow> P l \<Longrightarrow> find P (pre @ l # post) = Some l"
  by (induction pre) auto

lemma find_none: "\<forall>x\<in>set ls. \<not> P x \<Longrightarrow> find P ls = None"
  by (induction ls) auto

lemma h1_match_heading: "t \<noteq> [] \<Longrightarrow> h1_match (CHR ''#'' # CHR '' '' # t)"
  by (simp add: h1_match_def)

lemma h1_match_iff: "h1_match l \<longleftrightarrow> (\<exists>t. t \<noteq> [] \<and> l = ''# '' @ t)"
proof
  assume "h1_match l"
  then have "l = ''# '' @ drop 2 l" and "drop 2 l \<noteq> []"
    using append_take_drop_id [of 2 l] by (auto simp: h1_match_def)
  then show "\<exists>t. t \<noteq> [] \<and> l = ''# '' @ t" by blast
next
  assume "\<exists>t. t \<noteq> [] \<and> l = ''# '' @ t"
  then show "h1_match l" by (auto simp: h1_match_def)
qed

lemma strip_trimmed:
  assumes "t \<noteq> []" and "\<not> isspace (hd t)" and "\<not> isspace (last t)"
  shows "strip t = t"
proof -
  from assms have "dropWhile isspace t = t" by (cases t) auto
  moreover from assms have "dropWhile isspace (rev t) = rev t"
    by (cases "rev t") (auto simp: last_rev [symmetric] hd_rev simp del: last_rev)
  ultimately show ?thesis by (simp add: strip_def)
qed

lemma extract_title_lines:
  assumes "\<forall>l\<in>set pre. CHR ''\<newline>'' \<notin> set l \<and> \<not> h1_match l"
    and "CHR ''\<newline>'' \<notin> set t" and "t \<noteq> []"
    and "\<forall>l\<in>set post. CHR ''\<newline>'' \<notin> set l"
  shows "extract_title (join ''\<newline>'' (pre @ (''# '' @ t) # post)) = strip t"
proof -
  let ?ls = "pre @ (''# '' @ t) # post"
  have "split_on CHR ''\<newline>'' (join ''\<newline>'' ?ls) = ?ls"
    using assms by (intro split_on_join) auto
  moreover have "find h1_match ?ls = Some (''# '' @ t)"
    using assms by (intro find_first) (auto simp: h1_match_heading)
  ultimately show ?thesis by (simp add: extract_title_def)
qed

lemma extract_title_no_heading:
  assumes "\<forall>l\<in>set ls. CHR ''\<newline>'' \<notin> set l \<and> \<not> h1_match l"
  shows "extract_title (join ''\<newline>'' ls) = ''Untitled''"
proof (cases "ls = []")
  case True
  then show ?thesis by (simp add: extract_title_def h1_match_def)
next
  case False
  then have "split_on CHR ''\<newline>'' (join ''\<newline>'' ls) = ls"
    using assms by (intro split_on_join) auto
  moreover have "find h1_match ls = None" using assms by (intro find_none) auto
  ultimately show ?thesis by (simp add: extract_title_def)
qed

section \<open>Counting words\<close>

lemma starts_Cons_0: "0 \<in> starts b (c # cs) \<longleftrightarrow> \<not> isspace c \<and> b"
  by (simp add: starts_def)

lemma starts_Cons_Suc: "Suc j \<in> starts b (c # cs) \<longleftrightarrow> j \<in> starts (isspace c) cs"
  by (cases j) (simp_all add: starts_def)

lemma starts_Cons:
  "starts b (c # cs) = (if \<not> isspace c \<and> b then {0} else {}) \<union> Suc ` starts (isspace c) cs"
proof (rule set_eqI)
  fix i
  show "i \<in> starts b (c # cs) \<longleftrightarrow>
        i \<in> (if \<not> isspace c \<and> b then {0} else {}) \<union> Suc ` starts (isspace c) cs"
  proof (cases i)
    case 0
    then show ?thesis by (simp add: starts_Cons_0)
  next
    case (Suc j)
    have "Suc j \<in> Suc ` starts (isspace c) cs \<longleftrightarrow> j \<in> starts (isspace c) cs"
      by (simp add: inj_image_mem_iff)
    then show ?thesis using Suc by (simp add: starts_Cons_Suc)
  qed
qed

lemma finite_starts: "finite (starts b s)"
  by (simp add: starts_def)

lemma card_starts_Cons:
  assumes "\<And>b'. card (starts b' cs) = runs b' cs"
  shows "card (starts b (c # cs)) = runs b (c # cs)"
proof -
  have img: "card (Suc ` starts b' cs) = runs b' cs" for b'
    using assms [of b'] by (simp add: card_image)
  have fin: "finite (Suc ` starts b' cs)" for b'
    by (simp add: finite_starts)
  have notin: "0 \<notin> Suc ` starts b' cs" for b' by auto
  show ?thesis
  proof (cases "\<not> isspace c \<and> b")
    case True
    then have "starts b (c # cs) = insert 0 (Suc ` starts False cs)"
      by (simp add: starts_Cons)
    then show ?thesis using True img [of False] fin [of False] notin [of False] by simp
  next
    case False
    then have "starts b (c # cs) = Suc ` starts (isspace c) cs"
      by (auto simp: starts_Cons)
    then show ?thesis using False img [of "isspace c"] by simp
  qed
qed

lemma card_starts: "card (starts b s) = runs b s"
proof (induction s arbitrary: b)
  case Nil
  then show ?case by (simp add: starts_def)
next
  case (Cons c cs)
  then show ?case by (rule card_starts_Cons)
qed

lemma token_count_runs: "token_count s = runs True s"
proof -
  have "{i. token_start s i} = starts True s"
    by (auto simp: token_start_def starts_def)
  then show ?thesis by (simp add: token_count_def card_starts)
qed

lemma runs_all_space: "\<forall>x\<in>set s. isspace x \<Longrightarrow> runs b s = 0"
  by (induction s arbitrary: b) auto

lemma runs_skip_space: "runs True (dropWhile isspace s) = runs True s"
  by (induction s) auto

lemma runs_skip_token: "runs True (dropWhile (\<lambda>x. \<not> isspace x) s) = runs False s"
  by (induction s) auto

lemma split_ws_Nil:
  assumes "dropWhile isspace s = []"
  shows "split_ws s = []"
  by (subst split_ws.simps) (simp only: assms list.case)

lemma split_ws_Cons:
  assumes "dropWhile isspace s = c # cs"
  shows "split_ws s =
         (c # takeWhile (\<lambda>x. \<not> isspace x) cs) # split_ws (dropWhile (\<lambda>x. \<not> isspace x) cs)"
  by (subst split_ws.simps) (simp only: assms list.case)

lemma length_split_ws: "length (split_ws s) = runs True s"
proof (induction s rule: split_ws.induct)
  case (1 s)
  show ?case
  proof (cases "dropWhile isspace s")
    case Nil
    then have "runs True s = 0" by (simp add: runs_all_space)
    then show ?thesis using split_ws_Nil [OF Nil] by simp
  next
    case (Cons c cs)
    then have c: "\<not> isspace c" using hd_dropWhile [of isspace s] by auto
    have "runs True s = runs True (c # cs)" using runs_skip_space [of s] Cons by simp
    also have "\<dots> = Suc (runs False cs)" using c by simp
    also have "\<dots> = Suc (length (split_ws (dropWhile (\<lambda>x. \<not> isspace x) cs)))"
      using "1.IH" [OF Cons] by (simp add: runs_skip_token)
    finally show ?thesis using split_ws_Cons [OF Cons] by simp
  qed
qed

lemma split_ws_tokens: "t \<in> set (split_ws s) \<Longrightarrow> t \<noteq> [] \<and> (\<forall>c\<in>set t. \<not> isspace c)"
proof (induction s rule: split_ws.induct)
  case (1 s)
  show ?case
  proof (cases "dropWhile isspace s")
    case Nil
    with "1.prems" show ?thesis by (simp add: split_ws_Nil)
  next
    case (Cons c cs)
    then have c: "\<not> isspace c" using hd_dropWhile [of isspace s] by auto
    from "1.prems" split_ws_Cons [OF Cons]
    consider "t = c # takeWhile (\<lambda>x. \<not> isspace x) cs"
      | "t \<in> set (split_ws (dropWhile (\<lambda>x. \<not> isspace x) cs))"
      by auto
    then show ?thesis
    proof cases
      case 1
      then show ?thesis using c by (auto dest: set_takeWhileD)
    next
      case 2
      show ?thesis by (rule "1.IH" [OF Cons 2])
    qed
  qed
qed

section \<open>Reading the store\<close>

lemma load_article_metadata_fst:
  "fst (load_article_metadata i st) =
   (case article_metadata st i of None \<Rightarrow> default_metadata | Some m \<Rightarrow> m)"
  by (simp add: load_article_metadata_def split: option.splits)

lemma load_article_metadata_files [simp]:
  "files (snd (load_article_metadata i st)) = files st"
  by (simp add: load_article_metadata_def split: option.splits)

lemma load_article_metadata_meta:
  "article_metadata (snd (load_article_metadata i st)) =
   (case article_metadata st i of
      None \<Rightarrow> (article_metadata st)(i \<mapsto> default_metadata)
    | Some m \<Rightarrow> article_metadata st)"
  by (simp add: load_article_metadata_def split: option.splits)

lemma get_article_info_files [simp]: "files (snd (get_article_info p st)) = files st"
  by (simp add: get_article_info_def Let_def split: prod.splits)
     (metis load_article_metadata_files snd_conv)

lemma get_article_info_view:
  "art_content (fst (get_article_info p st)) =
     (case map_of (files st) p of Some c \<Rightarrow> universal_newlines c | None \<Rightarrow> [])"
  "art_title (fst (get_article_info p st)) =
     (case map_of (files st) p of
        Some c \<Rightarrow>
          if universal_newlines c \<noteq> [] then extract_title (universal_newlines c) else ''Untitled''
      | None \<Rightarrow> ''Untitled'')"
  "art_wordCount (fst (get_article_info p st)) =
     (case map_of (files st) p of
        Some c \<Rightarrow> if universal_newlines c \<noteq> [] then count_words (universal_newlines c) else 0
      | None \<Rightarrow> 0)"
  by (simp_all add: get_article_info_def Let_def split: prod.splits option.splits)

lemma get_article_present:
  "map_of (files st) (filepath_of i) = Some c \<Longrightarrow>
   fst (get_article i st) = Some (fst (get_article_info (filepath_of i) st))"
  by (simp add: get_article_def Let_def split: prod.splits)

lemma get_article_absent:
  "map_of (files st) (filepath_of i) = None \<Longrightarrow> get_article i st = (None, st)"
  by (simp add: get_article_def Let_def)

lemma load_article_metadata_eq:
  "load_article_metadata i st =
   (current_metadata st i, st\<lparr>article_metadata := (article_metadata st)(i \<mapsto> current_metadata st i)\<rparr>)"
  by (cases "article_metadata st i")
     (simp_all add: load_article_metadata_def current_metadata_def map_upd_triv)

lemma load_article_metadata_keeps:
  "article_metadata st i = Some m \<Longrightarrow> article_metadata (snd (load_article_metadata j st)) i = Some m"
  by (auto simp: load_article_metadata_def split: option.splits)

lemma load_article_metadata_other:
  "i \<noteq> j \<Longrightarrow> article_metadata (snd (load_article_metadata j st)) i = article_metadata st i"
  by (simp add: load_article_metadata_def split: option.splits)

lemma get_article_info_keeps:
  "article_metadata st i = Some m \<Longrightarrow> article_metadata (snd (get_article_info p st)) i = Some m"
  by (auto simp: get_article_info_def Let_def load_article_metadata_eq current_metadata_def)


lemma current_metadata_files [simp]:
  "current_metadata (st\<lparr>files := f\<rparr>) i = current_metadata st i"
  by (simp add: current_metadata_def)

lemma current_metadata_write [simp]:
  "write_text p text st = Inr st' \<Longrightarrow> current_metadata st' i = current_metadata st i"
  by (auto simp: write_text_def current_metadata_def split: option.splits)

lemma write_error_file_name:
  "CHR ''/'' \<notin> set i \<Longrightarrow> CHR 0x00 \<notin> set i \<Longrightarrow> write_error (filepath_of i) st = None"
  by (simp add: write_error_def filepath_of_def)

lemma merge_fields:
  "(case wg of
      None \<Rightarrow>
        (case pd of
           None \<Rightarrow>
             (case src of
                None \<Rightarrow> (case s of None \<Rightarrow> m | Some v \<Rightarrow> m\<lparr>status := v\<rparr>)
              | Some v \<Rightarrow> (case s of None \<Rightarrow> m | Some v \<Rightarrow> m\<lparr>status := v\<rparr>)\<lparr>sources := v\<rparr>)
         | Some v \<Rightarrow>
             (case src of
                None \<Rightarrow> (case s of None \<Rightarrow> m | Some v \<Rightarrow> m\<lparr>status := v\<rparr>)
              | Some v \<Rightarrow> (case s of None \<Rightarrow> m | Some v \<Rightarrow> m\<lparr>status := v\<rparr>)\<lparr>sources := v\<rparr>)
             \<lparr>publishDate := Some v\<rparr>)
    | Some v \<Rightarrow>
        (case pd of
           None \<Rightarrow>
             (case src of
                None \<Rightarrow> (case s of None \<Rightarrow> m | Some v \<Rightarrow> m\<lparr>status := v\<rparr>)
              | Some v \<Rightarrow> (case s of None \<Rightarrow> m | Some v \<Rightarrow> m\<lparr>status := v\<rparr>)\<lparr>sources := v\<rparr>)
         | Some v \<Rightarrow>
             (case src of
                None \<Rightarrow> (case s of None \<Rightarrow> m | Some v \<Rightarrow> m\<lparr>status := v\<rparr>)
              | Some v \<Rightarrow> (case s of None \<Rightarrow> m | Some v \<Rightarrow> m\<lparr>status := v\<rparr>)\<lparr>sources := v\<rparr>)
             \<lparr>publishDate := Some v\<rparr>)
        \<lparr>wordGoal := v\<rparr>)
   = \<lparr>status = (case s of None \<Rightarrow> status m | Some v \<Rightarrow> v),
      publishDate = (case pd of None \<Rightarrow> publishDate m | Some v \<Rightarrow> Some v),
      sources = (case src of None \<Rightarrow> sources m | Some v \<Rightarrow> v),
      wordGoal = (case wg of None \<Rightarrow> wordGoal m | Some v \<Rightarrow> v)\<rparr>"
  for m :: metadata
  by (cases s; cases src; cases pd; cases wg) simp_all

lemma save_article_ok:
  assumes "content = None \<or> write_error (filepath_of i) st = None"
  shows "save_article i title content s src pd wg st =
   (Inr (fst (get_article_info (filepath_of i)
     (st\<lparr>files := (case content of None \<Rightarrow> files st
                     | Some text \<Rightarrow> AList.update (filepath_of i)
                         (if truthy title then rewrite_title (the title) text else text) (files st)),
         article_metadata := (article_metadata st)(i \<mapsto>
           \<lparr>status = (case s of None \<Rightarrow> status (current_metadata st i) | Some v \<Rightarrow> v),
            publishDate = (case pd of None \<Rightarrow> publishDate (current_metadata st i) | Some v \<Rightarrow> Some v),
            sources = (case src of None \<Rightarrow> sources (current_metadata st i) | Some v \<Rightarrow> v),
            wordGoal = (case wg of None \<Rightarrow> wordGoal (current_metadata st i) | Some v \<Rightarrow> v)\<rparr>)\<rparr>))),
    snd (get_article_info (filepath_of i)
     (st\<lparr>files := (case content of None \<Rightarrow> files st
                     | Some text \<Rightarrow> AList.update (filepath_of i)
                         (if truthy title then rewrite_title (the title) text else text) (files st)),
         article_metadata := (article_metadata st)(i \<mapsto>
           \<lparr>status = (case s of None \<Rightarrow> status (current_metadata st i) | Some v \<Rightarrow> v),
            publishDate = (case pd of None \<Rightarrow> publishDate (current_metadata st i) | Some v \<Rightarrow> Some v),
            sources = (case src of None \<Rightarrow> sources (current_metadata st i) | Some v \<Rightarrow> v),
            wordGoal = (case wg of None \<Rightarrow> wordGoal (current_metadata st i) | Some v \<Rightarrow> v)\<rparr>)\<rparr>)))"
proof (cases content)
  case None
  then show ?thesis
    by (simp add: save_article_def Let_def load_article_metadata_eq save_article_metadata_def
        merge_fields split_def cong: option.case_cong)
next
  case (Some body)
  with assms have "write_error (filepath_of i) st = None" by simp
  with Some show ?thesis
    by (simp add: save_article_def write_text_def Let_def load_article_metadata_eq
        save_article_metadata_def merge_fields split_def cong: option.case_cong)
qed

lemma save_article_fails:
  "write_error (filepath_of i) st = Some e \<Longrightarrow>
   save_article i title (Some text) s src pd wg st = (Inl e, st)"
  by (simp add: save_article_def write_text_def Let_def)


lemma universal_newlines_other:
  "CHR 0x0D \<noteq> a \<Longrightarrow> universal_newlines (a # cs) = a # universal_newlines cs"
  by (cases cs) auto

lemma universal_newlines_id: "CHR 0x0D \<notin> set s \<Longrightarrow> universal_newlines s = s"
  by (induction s) (simp_all add: universal_newlines_other)

lemma universal_newlines_line:
  "CHR 0x0D \<notin> set x \<Longrightarrow>
   universal_newlines (x @ CHR ''\<newline>'' # r) = x @ CHR ''\<newline>'' # universal_newlines r"
  by (induction x) (simp_all add: universal_newlines_other)

section \<open>Derived title\<close>

text \<open>
  Claim C7, as the code has it. A body is a sequence of lines joined by line feeds. When
  its first line of the form \<^verbatim>\<open># \<close> followed by at least one character is \<^verbatim>\<open># \<close> followed
  by \<open>title\<close>, the derived title is \<open>title\<close> with the whitespace at both ends removed,
  whatever lines come after it, further headings included. When no line has that form,
  and in particular when the body is empty, the derived title is \<^verbatim>\<open>Untitled\<close>.
\<close>

theorem extract_title_first_heading:
  "((\<forall>l\<in>set pre. CHR ''\<newline>'' \<notin> set l \<and> \<not> (\<exists>t. t \<noteq> [] \<and> l = ''# '' @ t))
      \<and> CHR ''\<newline>'' \<notin> set title \<and> title \<noteq> [] \<and> (\<forall>l\<in>set post. CHR ''\<newline>'' \<notin> set l)
    \<longrightarrow> extract_title (join ''\<newline>'' (pre @ (''# '' @ title) # post)) = strip title)
   \<and> ((\<forall>l\<in>set ls. CHR ''\<newline>'' \<notin> set l \<and> \<not> (\<exists>t. t \<noteq> [] \<and> l = ''# '' @ t))
    \<longrightarrow> extract_title (join ''\<newline>'' ls) = ''Untitled'')
   \<and> extract_title [] = ''Untitled''"
  using extract_title_lines [of pre title post] extract_title_no_heading [of ls]
    extract_title_no_heading [of "[]"]
  by (simp add: h1_match_iff)

text \<open>
  An instance: the body \<^verbatim>\<open>intro\<close>, \<^verbatim>\<open>#  Hello \<close>, \<^verbatim>\<open># Second\<close> has the title \<^verbatim>\<open>Hello\<close>, and
  the body \<^verbatim>\<open>a\<close>, \<^verbatim>\<open># \<close> has none.
\<close>

theorem extract_title_first_heading_witness:
  "extract_title ''intro\<newline>#  Hello \<newline># Second'' = ''Hello''
   \<and> extract_title ''a\<newline># '' = ''Untitled''"
  using extract_title_first_heading [of "[''intro'']" "'' Hello ''" "[''# Second'']" "[''a'', ''# '']"]
  by (auto simp: strip_def isspace_def)

text \<open>
  The title is not always the text that follows the marker: for the body \<^verbatim>\<open>#  A\<close> that
  text is \<^verbatim>\<open> A\<close> and the title is \<^verbatim>\<open>A\<close>; and in the body \<^verbatim>\<open># \<close>, \<^verbatim>\<open># T\<close> the first line that
  starts with the marker is followed by nothing, yet the title is not empty.
\<close>

theorem extract_title_text_counterexample:
  "extract_title ''#  A'' \<noteq> drop 2 ''#  A''
   \<and> find (\<lambda>l. take 2 l = ''# '') (split_on CHR ''\<newline>'' ''# \<newline># T'') = Some ''# ''
   \<and> extract_title ''# \<newline># T'' \<noteq> []"
  by code_simp

section \<open>Word count\<close>

text \<open>
  Claim C8. The word count of a body is the number of its tokens, a token being a maximal
  run of characters that are not whitespace; every token of the split is non-empty and
  free of whitespace, and heading lines are split like any other text. The body
  \<^verbatim>\<open># Hello\<close>, empty line, \<^verbatim>\<open>World\<close> has the three tokens \<^verbatim>\<open>#\<close>, \<^verbatim>\<open>Hello\<close>, \<^verbatim>\<open>World\<close>, the word count
  3 and the title \<^verbatim>\<open>Hello\<close>, also in the view of an article stored with that body.
\<close>

theorem count_words_tokens:
  "count_words body = int (token_count body)
   \<and> (\<forall>t\<in>set (split_ws body). t \<noteq> [] \<and> (\<forall>c\<in>set t. \<not> isspace c))
   \<and> split_ws ''# Hello\<newline>\<newline>World'' = [''#'', ''Hello'', ''World'']
   \<and> count_words ''# Hello\<newline>\<newline>World'' = 3
   \<and> extract_title ''# Hello\<newline>\<newline>World'' = ''Hello''
   \<and> (map_of (files st) (filepath_of article_id) = Some ''# Hello\<newline>\<newline>World'' \<longrightarrow>
        (case fst (get_article article_id st) of
           Some a \<Rightarrow> art_wordCount a = 3 \<and> art_title a = ''Hello''
         | None \<Rightarrow> False))"
proof -
  have a: "count_words body = int (token_count body)"
    by (simp add: count_words_def length_split_ws token_count_runs)
  have b: "\<forall>t\<in>set (split_ws body). t \<noteq> [] \<and> (\<forall>c\<in>set t. \<not> isspace c)"
    using split_ws_tokens by blast
  have c: "split_ws ''# Hello\<newline>\<newline>World'' = [''#'', ''Hello'', ''World'']"
    by code_simp
  have d: "count_words ''# Hello\<newline>\<newline>World'' = 3"
    by (simp add: count_words_def c)
  have e: "extract_title ''# Hello\<newline>\<newline>World'' = ''Hello''"
    by code_simp
  have f: "(case fst (get_article article_id st) of
              Some a \<Rightarrow> art_wordCount a = 3 \<and> art_title a = ''Hello'' | None \<Rightarrow> False)"
    if "map_of (files st) (filepath_of article_id) = Some ''# Hello\<newline>\<newline>World''"
  proof -
    have "universal_newlines ''# Hello\<newline>\<newline>World'' = ''# Hello\<newline>\<newline>World''"
      by (rule universal_newlines_id) simp
    with that d e show ?thesis by (simp add: get_article_present get_article_info_view)
  qed
  from a b c d e f show ?thesis by blast
qed

text \<open>
  An instance: \<^verbatim>\<open>to be  or not\<close> has four words, and the article \<^verbatim>\<open>hello\<close> stored
  with the body above shows the word count 3.
\<close>

theorem count_words_tokens_witness:
  "count_words ''to be  or not'' = int (token_count ''to be  or not'')
   \<and> token_count ''to be  or not'' = 4
   \<and> map_of (files st_hello) (filepath_of ''hello'') = Some ''# Hello\<newline>\<newline>World''
   \<and> (case fst (get_article ''hello'' st_hello) of
         Some a \<Rightarrow> art_wordCount a = 3 \<and> art_title a = ''Hello''
       | None \<Rightarrow> False)"
proof -
  have h: "map_of (files st_hello) (filepath_of ''hello'') = Some ''# Hello\<newline>\<newline>World''"
    by (simp add: filepath_of_def st_hello_def)
  have n: "count_words ''to be  or not'' = 4" by code_simp
  have k: "int (token_count ''to be  or not'') = 4 \<Longrightarrow> token_count ''to be  or not'' = 4"
    by linarith
  show ?thesis
    using count_words_tokens [of "''to be  or not''" st_hello "''hello''"] h n k
    by simp
qed

section \<open>Changing the status\<close>

text \<open>
  Claim C3. The status change is refused with \<^verbatim>\<open>Invalid status\<close> exactly when the new
  status is not one of draft, review, scheduled, published (a missing status included),
  and a refused request leaves the whole state, so also the record and its status, as it
  was. An accepted request answers with the new status, stores it in the record of the id,
  replaces the publish date only by a supplied non-empty one and keeps the old one
  otherwise, so a date that was set is never cleared; the documents are not touched.
\<close>

theorem do_POST_status_checks:
  "(fst (do_POST_status article_id new_status new_publishDate st) = Inl InvalidStatus
      \<longleftrightarrow> new_status \<notin> {Some ''draft'', Some ''review'', Some ''scheduled'', Some ''published''})
   \<and> (fst (do_POST_status article_id new_status new_publishDate st) = Inl InvalidStatus
      \<longrightarrow> snd (do_POST_status article_id new_status new_publishDate st) = st)
   \<and> (new_status \<in> {Some ''draft'', Some ''review'', Some ''scheduled'', Some ''published''}
      \<longrightarrow> fst (do_POST_status article_id new_status new_publishDate st)
            = Inr (the new_status, new_publishDate)
        \<and> article_metadata (snd (do_POST_status article_id new_status new_publishDate st)) article_id
            = Some ((current_metadata st article_id)
                \<lparr>status := the new_status,
                 publishDate := (if truthy new_publishDate then new_publishDate
                                 else publishDate (current_metadata st article_id))\<rparr>)
        \<and> (publishDate (current_metadata st article_id) \<noteq> None \<longrightarrow>
             publishDate (the (article_metadata
               (snd (do_POST_status article_id new_status new_publishDate st)) article_id)) \<noteq> None)
        \<and> files (snd (do_POST_status article_id new_status new_publishDate st)) = files st)"
proof (cases new_status)
  case None
  then show ?thesis by (simp add: do_POST_status_def)
next
  case (Some s)
  show ?thesis
  proof (cases "s \<in> set valid_statuses")
    case True
    then have "new_status \<in> {Some ''draft'', Some ''review'', Some ''scheduled'', Some ''published''}"
      using Some by (auto simp: valid_statuses_def)
    moreover have "do_POST_status article_id new_status new_publishDate st =
      (Inr (s, new_publishDate),
       st\<lparr>article_metadata := (article_metadata st)(article_id \<mapsto>
         (current_metadata st article_id)
           \<lparr>status := s,
            publishDate := (if truthy new_publishDate then new_publishDate
                            else publishDate (current_metadata st article_id))\<rparr>)\<rparr>)"
      using Some True
      by (simp add: do_POST_status_def load_article_metadata_eq save_article_metadata_def Let_def)
    ultimately show ?thesis using Some by (auto simp: truthy_def split: option.splits)
  next
    case False
    then have "new_status \<notin> {Some ''draft'', Some ''review'', Some ''scheduled'', Some ''published''}"
      using Some by (auto simp: valid_statuses_def)
    moreover have "do_POST_status article_id new_status new_publishDate st = (Inl InvalidStatus, st)"
      using Some False by (simp add: do_POST_status_def)
    ultimately show ?thesis by simp
  qed
qed

text \<open>
  An instance, on a record in review dated 2024-05-01: \<^verbatim>\<open>bogus\<close> is refused and changes
  nothing; \<^verbatim>\<open>published\<close> with an empty publish date is accepted and keeps the date.
\<close>

theorem do_POST_status_checks_witness:
  "fst (do_POST_status ''a'' (Some ''bogus'') None st_review) = Inl InvalidStatus
   \<and> snd (do_POST_status ''a'' (Some ''bogus'') None st_review) = st_review
   \<and> status (the (article_metadata st_review ''a'')) = ''review''
   \<and> fst (do_POST_status ''a'' (Some ''published'') (Some []) st_review) = Inr (''published'', Some [])
   \<and> article_metadata (snd (do_POST_status ''a'' (Some ''published'') (Some []) st_review)) ''a''
       = Some \<lparr>status = ''published'', publishDate = Some ''2024-05-01'', sources = [], wordGoal = 500\<rparr>"
proof -
  have cur: "current_metadata st_review ''a'' =
      \<lparr>status = ''review'', publishDate = Some ''2024-05-01'', sources = [], wordGoal = 500\<rparr>"
    by (simp add: current_metadata_def st_review_def)
  have bad: "Some ''bogus'' \<notin> {Some ''draft'', Some ''review'', Some ''scheduled'', Some ''published''}"
    by simp
  have good: "Some ''published'' \<in> {Some ''draft'', Some ''review'', Some ''scheduled'', Some ''published''}"
    by simp
  have t: "\<not> truthy (Some [])" by (simp add: truthy_def)
  from do_POST_status_checks [of "''a''" "Some ''bogus''" None st_review]
    do_POST_status_checks [of "''a''" "Some ''published''" "Some []" st_review]
  show ?thesis
    unfolding cur using bad good t by (simp add: st_review_def)
qed

section \<open>Saving an article\<close>




text \<open>
  Claim C10. When the id has no document, a save without a body writes no document but
  stores the record; the view it returns has an empty body, the title \<^verbatim>\<open>Untitled\<close> and
  the word count 0; and a get of the same id afterwards finds nothing, a record without a
  document not being an article.
\<close>

theorem save_article_without_body:
  "map_of (files st) (filepath_of article_id) = None \<longrightarrow>
     files (snd (save_article article_id title None s src pd wg st)) = files st
   \<and> article_metadata (snd (save_article article_id title None s src pd wg st)) article_id =
       Some \<lparr>status = (case s of None \<Rightarrow> status (current_metadata st article_id) | Some v \<Rightarrow> v),
             publishDate = (case pd of None \<Rightarrow> publishDate (current_metadata st article_id)
                            | Some v \<Rightarrow> Some v),
             sources = (case src of None \<Rightarrow> sources (current_metadata st article_id) | Some v \<Rightarrow> v),
             wordGoal = (case wg of None \<Rightarrow> wordGoal (current_metadata st article_id) | Some v \<Rightarrow> v)\<rparr>
   \<and> (case fst (save_article article_id title None s src pd wg st) of
         Inr a \<Rightarrow> art_content a = [] \<and> art_title a = ''Untitled'' \<and> art_wordCount a = 0
       | Inl e \<Rightarrow> False)
   \<and> fst (get_article article_id (snd (save_article article_id title None s src pd wg st))) = None"
proof
  assume absent: "map_of (files st) (filepath_of article_id) = None"
  have w: "None = None \<or> write_error (filepath_of article_id) st = None" by simp
  note eq = save_article_ok [of None article_id st title s src pd wg, OF w]
  have f: "files (snd (save_article article_id title None s src pd wg st)) = files st"
    unfolding eq by simp
  have m: "article_metadata (snd (save_article article_id title None s src pd wg st)) article_id =
       Some \<lparr>status = (case s of None \<Rightarrow> status (current_metadata st article_id) | Some v \<Rightarrow> v),
             publishDate = (case pd of None \<Rightarrow> publishDate (current_metadata st article_id)
                            | Some v \<Rightarrow> Some v),
             sources = (case src of None \<Rightarrow> sources (current_metadata st article_id) | Some v \<Rightarrow> v),
             wordGoal = (case wg of None \<Rightarrow> wordGoal (current_metadata st article_id) | Some v \<Rightarrow> v)\<rparr>"
    unfolding eq snd_conv by (rule get_article_info_keeps) simp
  have v: "(case fst (save_article article_id title None s src pd wg st) of
         Inr a \<Rightarrow> art_content a = [] \<and> art_title a = ''Untitled'' \<and> art_wordCount a = 0
       | Inl e \<Rightarrow> False)"
    unfolding eq using absent by (simp add: get_article_info_view)
  have g: "fst (get_article article_id (snd (save_article article_id title None s src pd wg st))) = None"
    using absent f by (simp add: get_article_absent)
  from f m v g
  show "files (snd (save_article article_id title None s src pd wg st)) = files st
   \<and> article_metadata (snd (save_article article_id title None s src pd wg st)) article_id =
       Some \<lparr>status = (case s of None \<Rightarrow> status (current_metadata st article_id) | Some v \<Rightarrow> v),
             publishDate = (case pd of None \<Rightarrow> publishDate (current_metadata st article_id)
                            | Some v \<Rightarrow> Some v),
             sources = (case src of None \<Rightarrow> sources (current_metadata st article_id) | Some v \<Rightarrow> v),
             wordGoal = (case wg of None \<Rightarrow> wordGoal (current_metadata st article_id) | Some v \<Rightarrow> v)\<rparr>
   \<and> (case fst (save_article article_id title None s src pd wg st) of
         Inr a \<Rightarrow> art_content a = [] \<and> art_title a = ''Untitled'' \<and> art_wordCount a = 0
       | Inl e \<Rightarrow> False)
   \<and> fst (get_article article_id (snd (save_article article_id title None s src pd wg st))) = None"
    by simp
qed

text \<open>
  An instance: the id \<^verbatim>\<open>ghost\<close> saved into the empty store with a title and a status only.
\<close>

theorem save_article_without_body_witness:
  "map_of (files st_empty) (filepath_of ''ghost'') = None
   \<and> files (snd (save_article ''ghost'' (Some ''T'') None (Some ''review'') None None None st_empty)) = []
   \<and> article_metadata (snd (save_article ''ghost'' (Some ''T'') None (Some ''review'') None None None st_empty))
        ''ghost'' = Some \<lparr>status = ''review'', publishDate = None, sources = [], wordGoal = 1000\<rparr>
   \<and> (case fst (save_article ''ghost'' (Some ''T'') None (Some ''review'') None None None st_empty) of
         Inr a \<Rightarrow> art_content a = [] \<and> art_title a = ''Untitled'' \<and> art_wordCount a = 0
       | Inl e \<Rightarrow> False)
   \<and> fst (get_article ''ghost''
        (snd (save_article ''ghost'' (Some ''T'') None (Some ''review'') None None None st_empty))) = None"
proof -
  have h: "map_of (files st_empty) (filepath_of ''ghost'') = None" by (simp add: st_empty_def)
  have cur: "current_metadata st_empty ''ghost'' = default_metadata"
    by (simp add: current_metadata_def st_empty_def)
  from save_article_without_body
    [of st_empty "''ghost''" "Some ''T''" "Some ''review''" None None None] h
  show ?thesis unfolding cur by (simp add: default_metadata_def st_empty_def)
qed

section \<open>Deleting an article\<close>

text \<open>
  Claim C2, as the code has it. When the document of the id exists, the delete removes it
  and evicts the record of the id, whether or not there was one, and reports success.
  When no document exists, the delete answers \<^verbatim>\<open>Article not found\<close> and changes nothing,
  so a record without a document stays in the overlay. In both cases a get of the id
  afterwards finds nothing.
\<close>

theorem do_DELETE_document:
  "(map_of (files st) (filepath_of article_id) \<noteq> None \<longrightarrow>
      fst (do_DELETE article_id st) = Inr ()
    \<and> map_of (files (snd (do_DELETE article_id st))) = (map_of (files st))(filepath_of article_id := None)
    \<and> article_metadata (snd (do_DELETE article_id st)) = (article_metadata st)(article_id := None))
   \<and> (map_of (files st) (filepath_of article_id) = None \<longrightarrow>
      do_DELETE article_id st = (Inl NotFound, st))
   \<and> fst (get_article article_id (snd (do_DELETE article_id st))) = None"
proof (cases "map_of (files st) (filepath_of article_id)")
  case None
  then show ?thesis by (simp add: do_DELETE_def get_article_absent)
next
  case (Some c)
  then have "map_of (files (snd (do_DELETE article_id st))) (filepath_of article_id) = None"
    by (simp add: do_DELETE_def delete_conv')
  then have "fst (get_article article_id (snd (do_DELETE article_id st))) = None"
    by (simp add: get_article_absent)
  then show ?thesis using Some by (simp add: do_DELETE_def delete_conv')
qed

text \<open>
  An instance: deleting the only document, and deleting an id that has none.
\<close>

theorem do_DELETE_document_witness:
  "fst (do_DELETE ''hello'' st_hello) = Inr ()
   \<and> map_of (files (snd (do_DELETE ''hello'' st_hello))) ''hello.md'' = None
   \<and> fst (get_article ''hello'' (snd (do_DELETE ''hello'' st_hello))) = None
   \<and> do_DELETE ''ghost'' st_hello = (Inl NotFound, st_hello)"
proof -
  have p: "map_of (files st_hello) (filepath_of ''hello'') \<noteq> None"
    by (simp add: st_hello_def filepath_of_def)
  have a: "map_of (files st_hello) (filepath_of ''ghost'') = None"
    by (simp add: st_hello_def filepath_of_def)
  have n: "filepath_of ''hello'' = ''hello.md''" by (simp add: filepath_of_def)
  from do_DELETE_document [of st_hello "''hello''"] do_DELETE_document [of st_hello "''ghost''"] p a
  show ?thesis by (simp add: n)
qed

text \<open>
  The record of \<^verbatim>\<open>a\<close> exists without a document; the delete of \<^verbatim>\<open>a\<close> is answered with
  \<^verbatim>\<open>Article not found\<close> and the record is still there.
\<close>

theorem do_DELETE_keeps_record_counterexample:
  "map_of (files st_review) (filepath_of ''a'') = None
   \<and> article_metadata st_review ''a'' \<noteq> None
   \<and> fst (do_DELETE ''a'' st_review) = Inl NotFound
   \<and> article_metadata (snd (do_DELETE ''a'' st_review)) ''a'' \<noteq> None"
  by (simp add: do_DELETE_def st_review_def filepath_of_def)

section \<open>Retention of records\<close>

lemma list_loop_keeps:
  "article_metadata st i = Some m \<Longrightarrow> article_metadata (snd (list_loop ps acc st)) i = Some m"
proof (induction ps arbitrary: acc st)
  case Nil
  then show ?case by simp
next
  case (Cons p ps)
  have "article_metadata (snd (get_article_info p st)) i = Some m"
    using Cons.prems by (rule get_article_info_keeps)
  then have "article_metadata (snd (list_loop ps (acc @ [listing_of (fst (get_article_info p st))])
      (snd (get_article_info p st)))) i = Some m"
    by (rule Cons.IH)
  then show ?case by (simp add: split_def Let_def)
qed

lemma list_articles_keeps:
  "article_metadata st i = Some m \<Longrightarrow> article_metadata (snd (list_articles st)) i = Some m"
  by (simp add: list_articles_def list_loop_keeps)

lemma get_article_keeps:
  "article_metadata st i = Some m \<Longrightarrow> article_metadata (snd (get_article j st)) i = Some m"
  by (simp add: get_article_def Let_def split_def get_article_info_keeps)

lemma save_article_retains:
  "article_metadata st i \<noteq> None \<Longrightarrow>
   article_metadata (snd (save_article j title content s src pd wg st)) i \<noteq> None"
proof -
  assume r: "article_metadata st i \<noteq> None"
  show ?thesis
  proof (cases "content = None \<or> write_error (filepath_of j) st = None")
    case True
    from r obtain m where "article_metadata
       (st\<lparr>files := (case content of None \<Rightarrow> files st
                       | Some text \<Rightarrow> AList.update (filepath_of j)
                           (if truthy title then rewrite_title (the title) text else text) (files st)),
           article_metadata := (article_metadata st)(j \<mapsto>
             \<lparr>status = (case s of None \<Rightarrow> status (current_metadata st j) | Some v \<Rightarrow> v),
              publishDate = (case pd of None \<Rightarrow> publishDate (current_metadata st j) | Some v \<Rightarrow> Some v),
              sources = (case src of None \<Rightarrow> sources (current_metadata st j) | Some v \<Rightarrow> v),
              wordGoal = (case wg of None \<Rightarrow> wordGoal (current_metadata st j) | Some v \<Rightarrow> v)\<rparr>)\<rparr>) i
       = Some m"
      by (cases "i = j") auto
    then show ?thesis
      unfolding save_article_ok [OF True] snd_conv by (simp add: get_article_info_keeps)
  next
    case False
    then obtain body e where "content = Some body" "write_error (filepath_of j) st = Some e"
      by auto
    then show ?thesis using r by (simp add: save_article_fails)
  qed
qed

lemma do_POST_status_retains:
  "article_metadata st i \<noteq> None \<Longrightarrow> article_metadata (snd (do_POST_status j s pd st)) i \<noteq> None"
  by (auto simp: do_POST_status_def load_article_metadata_eq save_article_metadata_def Let_def
      split: option.splits)

lemma do_POST_schedule_retains:
  "article_metadata st i \<noteq> None \<Longrightarrow> article_metadata (snd (do_POST_schedule j pd st)) i \<noteq> None"
  by (auto simp: do_POST_schedule_def load_article_metadata_eq save_article_metadata_def Let_def)

lemma schedule_loop_retains:
  "article_metadata st i \<noteq> None \<Longrightarrow>
   article_metadata (snd (schedule_loop n ids d acc st)) i \<noteq> None"
proof (induction ids arbitrary: d acc st)
  case Nil
  then show ?case by simp
next
  case (Cons j ids)
  let ?st2 = "save_article_metadata j
      ((fst (load_article_metadata j st))\<lparr>status := ''scheduled'',
         publishDate := Some (isoformat16 d)\<rparr>) (snd (load_article_metadata j st))"
  have st2: "article_metadata ?st2 i \<noteq> None"
    using Cons.prems by (auto simp: load_article_metadata_eq save_article_metadata_def)
  show ?case
  proof (cases "replace_day d (day d + n)")
    case (Inl e)
    then show ?thesis using st2 by (simp add: Let_def split_def)
  next
    case (Inr d')
    then show ?thesis using Cons.IH [OF st2] by (simp add: Let_def split_def)
  qed
qed

lemma do_POST_bulk_schedule_retains:
  "article_metadata st i \<noteq> None \<Longrightarrow>
   article_metadata (snd (do_POST_bulk_schedule parse ids sd n st)) i \<noteq> None"
proof -
  assume r: "article_metadata st i \<noteq> None"
  show ?thesis
  proof (cases "parse (the sd)")
    case (Inl e)
    then show ?thesis using r by (simp add: do_POST_bulk_schedule_def)
  next
    case (Inr d)
    then show ?thesis
      using r schedule_loop_retains [OF r, of n ids d "[]"]
      by (simp add: do_POST_bulk_schedule_def)
  qed
qed

lemma do_POST_notifications_retains:
  "article_metadata st i \<noteq> None \<Longrightarrow>
   article_metadata (snd (do_POST_notifications parse now st)) i \<noteq> None"
proof -
  assume "article_metadata st i \<noteq> None"
  then obtain m where "article_metadata st i = Some m" by auto
  then have "article_metadata (snd (list_articles st)) i = Some m"
    by (rule list_articles_keeps)
  then show ?thesis by (simp add: do_POST_notifications_def split_def Let_def)
qed

lemma do_DELETE_retains:
  "article_metadata st i \<noteq> None \<Longrightarrow> i \<noteq> j \<Longrightarrow> article_metadata (snd (do_DELETE j st)) i \<noteq> None"
  by (simp add: do_DELETE_def Let_def)

lemma serve_retains:
  "article_metadata st i \<noteq> None \<Longrightarrow> req \<noteq> DeleteArticle i \<Longrightarrow>
   article_metadata (serve parse req st) i \<noteq> None"
proof (cases req)
  case ListArticles
  assume "article_metadata st i \<noteq> None"
  then show ?thesis using ListArticles by (auto simp: list_articles_keeps)
next
  case (GetArticle j)
  assume "article_metadata st i \<noteq> None"
  then show ?thesis using GetArticle by (auto simp: get_article_keeps)
next
  case (SaveArticle j title content s src pd wg)
  assume "article_metadata st i \<noteq> None"
  then show ?thesis using SaveArticle by (simp add: save_article_retains)
next
  case (SetArticleStatus j s pd)
  assume "article_metadata st i \<noteq> None"
  then show ?thesis using SetArticleStatus by (simp add: do_POST_status_retains)
next
  case (ScheduleArticle j pd)
  assume "article_metadata st i \<noteq> None"
  then show ?thesis using ScheduleArticle by (simp add: do_POST_schedule_retains)
next
  case (BulkSchedule ids sd n)
  assume "article_metadata st i \<noteq> None"
  then show ?thesis using BulkSchedule by (simp add: do_POST_bulk_schedule_retains)
next
  case (DeleteArticle j)
  assume "article_metadata st i \<noteq> None" and "req \<noteq> DeleteArticle i"
  then show ?thesis using DeleteArticle by (simp add: do_DELETE_retains)
next
  case (PendingReminders now)
  assume "article_metadata st i \<noteq> None"
  then show ?thesis using PendingReminders by (simp add: do_POST_notifications_retains)
qed

lemma fold_serve_retains:
  "article_metadata st i \<noteq> None \<Longrightarrow> DeleteArticle i \<notin> set reqs \<Longrightarrow>
   article_metadata (fold (serve parse) reqs st) i \<noteq> None"
proof (induction reqs arbitrary: st)
  case Nil
  then show ?case by simp
next
  case (Cons req reqs)
  from Cons.prems have "article_metadata (serve parse req st) i \<noteq> None"
    by (intro serve_retains) auto
  then show ?case using Cons.IH Cons.prems by simp
qed

text \<open>
  Claim C9. Loading the metadata of an id that has no record returns the defaults (draft,
  no publish date, no sources, word goal 1000) and stores them. A record that exists is
  still there after any operation other than the delete of its own id, and so after any
  sequence of such operations.
\<close>

theorem metadata_record_retained:
  "(article_metadata st article_id = None \<longrightarrow>
      load_article_metadata article_id st =
        (\<lparr>status = ''draft'', publishDate = None, sources = [], wordGoal = 1000\<rparr>,
         st\<lparr>article_metadata := (article_metadata st)(article_id \<mapsto>
              \<lparr>status = ''draft'', publishDate = None, sources = [], wordGoal = 1000\<rparr>)\<rparr>))
   \<and> (article_metadata st article_id \<noteq> None \<and> req \<noteq> DeleteArticle article_id \<longrightarrow>
      article_metadata (serve parse req st) article_id \<noteq> None)
   \<and> (article_metadata st article_id \<noteq> None \<and> DeleteArticle article_id \<notin> set reqs \<longrightarrow>
      article_metadata (fold (serve parse) reqs st) article_id \<noteq> None)"
  using serve_retains [of st article_id req parse] fold_serve_retains [of st article_id reqs parse]
  by (simp add: load_article_metadata_def default_metadata_def)

text \<open>
  An instance: the first load of \<^verbatim>\<open>a\<close> in the empty store, and the record of \<^verbatim>\<open>a\<close> across
  one request of each kind, among them a bulk schedule that fails and the delete of
  another id.
\<close>

theorem metadata_record_retained_witness:
  "load_article_metadata ''a'' st_empty =
     (\<lparr>status = ''draft'', publishDate = None, sources = [], wordGoal = 1000\<rparr>,
      st_empty\<lparr>article_metadata := (article_metadata st_empty)(''a'' \<mapsto>
         \<lparr>status = ''draft'', publishDate = None, sources = [], wordGoal = 1000\<rparr>)\<rparr>)
   \<and> article_metadata (serve fromisoformat (DeleteArticle ''b'') st_review) ''a'' \<noteq> None
   \<and> article_metadata
        (fold (serve fromisoformat)
           [ListArticles, GetArticle ''a'', SaveArticle ''b'' None (Some ''text'') None None None None,
            SetArticleStatus ''a'' (Some ''draft'') None, ScheduleArticle ''b'' None,
            BulkSchedule [''a'', ''b''] (Some ''2024-01-31'') 1, DeleteArticle ''b'',
            PendingReminders \<lparr>year = 2024, month = 1, day = 30, hour = 9, minute = 0, second = 0,
              microsecond = 0, tzinfo = None\<rparr>]
           st_review) ''a'' \<noteq> None"
proof -
  have e: "article_metadata st_empty ''a'' = None" by (simp add: st_empty_def)
  have r: "article_metadata st_review ''a'' \<noteq> None" by (simp add: st_review_def)
  from metadata_record_retained [of st_empty "''a''" ListArticles fromisoformat "[]"] e
  have 1: "load_article_metadata ''a'' st_empty =
     (\<lparr>status = ''draft'', publishDate = None, sources = [], wordGoal = 1000\<rparr>,
      st_empty\<lparr>article_metadata := (article_metadata st_empty)(''a'' \<mapsto>
         \<lparr>status = ''draft'', publishDate = None, sources = [], wordGoal = 1000\<rparr>)\<rparr>)"
    by simp
  from metadata_record_retained [of st_review "''a''" "DeleteArticle ''b''" fromisoformat
      "[ListArticles, GetArticle ''a'', SaveArticle ''b'' None (Some ''text'') None None None None,
        SetArticleStatus ''a'' (Some ''draft'') None, ScheduleArticle ''b'' None,
        BulkSchedule [''a'', ''b''] (Some ''2024-01-31'') 1, DeleteArticle ''b'',
        PendingReminders \<lparr>year = 2024, month = 1, day = 30, hour = 9, minute = 0, second = 0,
          microsecond = 0, tzinfo = None\<rparr>]"] r
  have 2: "article_metadata (serve fromisoformat (DeleteArticle ''b'') st_review) ''a'' \<noteq> None
   \<and> article_metadata
        (fold (serve fromisoformat)
           [ListArticles, GetArticle ''a'', SaveArticle ''b'' None (Some ''text'') None None None None,
            SetArticleStatus ''a'' (Some ''draft'') None, ScheduleArticle ''b'' None,
            BulkSchedule [''a'', ''b''] (Some ''2024-01-31'') 1, DeleteArticle ''b'',
            PendingReminders \<lparr>year = 2024, month = 1, day = 30, hour = 9, minute = 0, second = 0,
              microsecond = 0, tzinfo = None\<rparr>]
           st_review) ''a'' \<noteq> None"
    by simp
  from 1 2 show ?thesis by simp
qed

section \<open>Rewriting the title\<close>

lemma split_on_nonempty: "split_on sep s \<noteq> []"
  by (induction s) (auto split: list.splits)

lemma split_on_lines_no_sep: "l \<in> set (split_on sep s) \<Longrightarrow> sep \<notin> set l"
proof (induction s arbitrary: l)
  case Nil
  then show ?case by simp
next
  case (Cons c cs)
  show ?case
  proof (cases "c = sep")
    case True
    with Cons show ?thesis by auto
  next
    case False
    obtain x xs where x: "split_on sep cs = x # xs"
      using split_on_nonempty [of sep cs] by (cases "split_on sep cs") auto
    with Cons.prems False have "l = c # x \<or> l \<in> set xs" by auto
    then show ?thesis using Cons.IH x False by auto
  qed
qed

lemma split_on_join_filter:
  "split_on sep (join [sep] (filter P (split_on sep s))) =
   (if filter P (split_on sep s) = [] then [[]] else filter P (split_on sep s))"
proof (cases "filter P (split_on sep s) = []")
  case True
  then show ?thesis by simp
next
  case False
  have "\<forall>l\<in>set (filter P (split_on sep s)). sep \<notin> set l"
    by (auto dest: split_on_lines_no_sep)
  with False show ?thesis by (simp add: split_on_join)
qed

lemma rewrite_title_lines:
  assumes "CHR ''\<newline>'' \<notin> set title"
  shows "split_on CHR ''\<newline>'' (rewrite_title title body) =
         (''# '' @ title) # [] #
           (if filter (\<lambda>line. take 2 line \<noteq> ''# '') (split_on CHR ''\<newline>'' body) = [] then [[]]
            else filter (\<lambda>line. take 2 line \<noteq> ''# '') (split_on CHR ''\<newline>'' body))"
proof -
  let ?rest = "join ''\<newline>'' (filter (\<lambda>line. take 2 line \<noteq> ''# '') (split_on CHR ''\<newline>'' body))"
  have r: "rewrite_title title body = (''# '' @ title) @ CHR ''\<newline>'' # ([] @ CHR ''\<newline>'' # ?rest)"
    by (simp add: rewrite_title_def)
  have "CHR ''\<newline>'' \<notin> set (''# '' @ title)" using assms by simp
  then have "split_on CHR ''\<newline>'' ((''# '' @ title) @ CHR ''\<newline>'' # ([] @ CHR ''\<newline>'' # ?rest)) =
      (''# '' @ title) # split_on CHR ''\<newline>'' ([] @ CHR ''\<newline>'' # ?rest)"
    by (rule split_on_append_sep)
  also have "split_on CHR ''\<newline>'' ([] @ CHR ''\<newline>'' # ?rest) = [] # split_on CHR ''\<newline>'' ?rest"
    by (rule split_on_append_sep) simp
  finally show ?thesis unfolding r by (simp only: split_on_join_filter)
qed

lemma extract_title_rewrite:
  assumes "title \<noteq> []" and "CHR ''\<newline>'' \<notin> set title"
  shows "extract_title (rewrite_title title body) = strip title"
  using assms by (simp add: extract_title_def rewrite_title_lines h1_match_def)

lemma rewrite_title_nonempty: "rewrite_title title body \<noteq> []"
  by (simp add: rewrite_title_def)

lemma rewrite_title_read:
  assumes "CHR 0x0D \<notin> set title"
  shows "\<exists>r. universal_newlines (rewrite_title title body) = (''# '' @ title) @ CHR ''\<newline>'' # r"
proof -
  obtain r where r: "rewrite_title title body = (''# '' @ title) @ CHR ''\<newline>'' # r"
    by (simp add: rewrite_title_def)
  have "CHR 0x0D \<notin> set (''# '' @ title)" using assms by simp
  then have "universal_newlines ((''# '' @ title) @ CHR ''\<newline>'' # r) =
      (''# '' @ title) @ CHR ''\<newline>'' # universal_newlines r"
    by (rule universal_newlines_line)
  then show ?thesis unfolding r by blast
qed

text \<open>
  Claim C6, as the code has it. Let the id be a file name (no \<^verbatim>\<open>/\<close>, no NUL) and let the
  title be non-empty, without a line feed or a carriage return, and without whitespace at
  its ends. After a save of that title with a body, the document of the id is the heading
  line \<^verbatim>\<open># \<close> plus title, an empty line, and then the lines of the body that do not start
  with \<^verbatim>\<open># \<close>, in their order; its first line, which is also its first line that starts
  with the marker, is the new heading. A get of the id shows that document as the file
  reads back (a carriage return of the body reads as a line feed); there too the first
  line that starts with the marker is the new heading, and the title shown is the title
  that was saved, as it is in the view the save returns.
\<close>

theorem title_round_trip:
  "CHR ''/'' \<notin> set article_id \<and> CHR 0x00 \<notin> set article_id
   \<and> title \<noteq> [] \<and> CHR ''\<newline>'' \<notin> set title \<and> CHR 0x0D \<notin> set title
   \<and> \<not> isspace (hd title) \<and> \<not> isspace (last title) \<longrightarrow>
   (let st' = snd (save_article article_id (Some title) (Some body) s src pd wg st);
        kept = filter (\<lambda>line. take 2 line \<noteq> ''# '') (split_on CHR ''\<newline>'' body);
        persisted = ''# '' @ title @ ''\<newline>\<newline>'' @ join ''\<newline>'' kept
    in map_of (files st') (filepath_of article_id) = Some persisted
       \<and> split_on CHR ''\<newline>'' persisted = (''# '' @ title) # [] # (if kept = [] then [[]] else kept)
       \<and> find (\<lambda>line. take 2 line = ''# '') (split_on CHR ''\<newline>'' persisted) = Some (''# '' @ title)
       \<and> find (\<lambda>line. take 2 line = ''# '') (split_on CHR ''\<newline>'' (universal_newlines persisted))
            = Some (''# '' @ title)
       \<and> (case fst (get_article article_id st') of
            Some a \<Rightarrow> art_title a = title \<and> art_content a = universal_newlines persisted
          | None \<Rightarrow> False)
       \<and> (case fst (save_article article_id (Some title) (Some body) s src pd wg st) of
            Inr a \<Rightarrow> art_title a = title \<and> art_content a = universal_newlines persisted
          | Inl e \<Rightarrow> False))"
proof
  assume a: "CHR ''/'' \<notin> set article_id \<and> CHR 0x00 \<notin> set article_id
   \<and> title \<noteq> [] \<and> CHR ''\<newline>'' \<notin> set title \<and> CHR 0x0D \<notin> set title
   \<and> \<not> isspace (hd title) \<and> \<not> isspace (last title)"
  define st' where "st' = snd (save_article article_id (Some title) (Some body) s src pd wg st)"
  define kept where "kept = filter (\<lambda>line. take 2 line \<noteq> ''# '') (split_on CHR ''\<newline>'' body)"
  define persisted where "persisted = ''# '' @ title @ ''\<newline>\<newline>'' @ join ''\<newline>'' kept"
  have p: "persisted = rewrite_title title body"
    by (simp add: persisted_def kept_def rewrite_title_def)
  have t: "truthy (Some title)" using a by (simp add: truthy_def)
  have w: "Some body = None \<or> write_error (filepath_of article_id) st = None"
    using a by (simp add: write_error_file_name)
  note eq = save_article_ok [of "Some body" article_id st "Some title" s src pd wg, OF w]
  have f: "map_of (files st') (filepath_of article_id) = Some persisted"
    unfolding st'_def eq using t by (simp add: update_conv' p)
  have l: "split_on CHR ''\<newline>'' persisted = (''# '' @ title) # [] # (if kept = [] then [[]] else kept)"
    unfolding p kept_def by (rule rewrite_title_lines) (use a in simp)
  have h: "find (\<lambda>line. take 2 line = ''# '') (split_on CHR ''\<newline>'' persisted) = Some (''# '' @ title)"
    unfolding l by simp
  obtain r where r: "universal_newlines persisted = (''# '' @ title) @ CHR ''\<newline>'' # r"
    unfolding p using rewrite_title_read [of title body] a by blast
  have nl: "CHR ''\<newline>'' \<notin> set (''# '' @ title)" using a by simp
  have lr: "split_on CHR ''\<newline>'' (universal_newlines persisted) =
      (''# '' @ title) # split_on CHR ''\<newline>'' r"
    unfolding r using nl by (rule split_on_append_sep)
  have hr: "find (\<lambda>line. take 2 line = ''# '') (split_on CHR ''\<newline>'' (universal_newlines persisted))
      = Some (''# '' @ title)"
    unfolding lr by simp
  have "find h1_match (split_on CHR ''\<newline>'' (universal_newlines persisted)) = Some (''# '' @ title)"
    unfolding lr using a by (simp add: h1_match_def)
  then have e: "extract_title (universal_newlines persisted) = title"
    using a by (simp add: extract_title_def strip_trimmed)
  have n: "universal_newlines persisted \<noteq> []" unfolding r by simp
  have g: "(case fst (get_article article_id st') of
            Some a \<Rightarrow> art_title a = title \<and> art_content a = universal_newlines persisted
          | None \<Rightarrow> False)"
    using f e n by (simp add: get_article_present get_article_info_view)
  have v: "(case fst (save_article article_id (Some title) (Some body) s src pd wg st) of
            Inr a \<Rightarrow> art_title a = title \<and> art_content a = universal_newlines persisted
          | Inl e \<Rightarrow> False)"
    unfolding eq using t e n by (simp add: get_article_info_view update_conv' p)
  from f l h hr g v show "let st' = snd (save_article article_id (Some title) (Some body) s src pd wg st);
        kept = filter (\<lambda>line. take 2 line \<noteq> ''# '') (split_on CHR ''\<newline>'' body);
        persisted = ''# '' @ title @ ''\<newline>\<newline>'' @ join ''\<newline>'' kept
    in map_of (files st') (filepath_of article_id) = Some persisted
       \<and> split_on CHR ''\<newline>'' persisted = (''# '' @ title) # [] # (if kept = [] then [[]] else kept)
       \<and> find (\<lambda>line. take 2 line = ''# '') (split_on CHR ''\<newline>'' persisted) = Some (''# '' @ title)
       \<and> find (\<lambda>line. take 2 line = ''# '') (split_on CHR ''\<newline>'' (universal_newlines persisted))
            = Some (''# '' @ title)
       \<and> (case fst (get_article article_id st') of
            Some a \<Rightarrow> art_title a = title \<and> art_content a = universal_newlines persisted
          | None \<Rightarrow> False)
       \<and> (case fst (save_article article_id (Some title) (Some body) s src pd wg st) of
            Inr a \<Rightarrow> art_title a = title \<and> art_content a = universal_newlines persisted
          | Inl e \<Rightarrow> False)"
    unfolding st'_def kept_def persisted_def Let_def by simp
qed

text \<open>
  An instance: the title \<^verbatim>\<open>T1\<close> over a body with two headings.
\<close>

theorem title_round_trip_witness:
  "map_of (files (snd (save_article ''a'' (Some ''T1'') (Some ''# Old\<newline>Hello\<newline># Other\<newline>Bye'')
       None None None None st_empty))) ''a.md'' = Some ''# T1\<newline>\<newline>Hello\<newline>Bye''
   \<and> (case fst (get_article ''a'' (snd (save_article ''a'' (Some ''T1'')
           (Some ''# Old\<newline>Hello\<newline># Other\<newline>Bye'') None None None None st_empty))) of
         Some a \<Rightarrow> art_title a = ''T1'' \<and> art_content a = ''# T1\<newline>\<newline>Hello\<newline>Bye''
       | None \<Rightarrow> False)"
proof -
  have h: "CHR ''/'' \<notin> set ''a'' \<and> CHR 0x00 \<notin> set ''a''
      \<and> ''T1'' \<noteq> [] \<and> CHR ''\<newline>'' \<notin> set ''T1'' \<and> CHR 0x0D \<notin> set ''T1''
      \<and> \<not> isspace (hd ''T1'') \<and> \<not> isspace (last ''T1'')"
    by (simp add: isspace_def)
  have k: "filter (\<lambda>line. take 2 line \<noteq> ''# '') (split_on CHR ''\<newline>'' ''# Old\<newline>Hello\<newline># Other\<newline>Bye'')
           = [''Hello'', ''Bye'']"
    by simp
  have u: "universal_newlines (''# '' @ ''T1'' @ ''\<newline>\<newline>'' @ join ''\<newline>'' [''Hello'', ''Bye''])
           = ''# T1\<newline>\<newline>Hello\<newline>Bye''"
    by simp
  from title_round_trip [of "''a''" "''T1''" "''# Old\<newline>Hello\<newline># Other\<newline>Bye''" None None None None st_empty] h
  show ?thesis unfolding Let_def k u by (simp add: filepath_of_def cong: option.case_cong)
qed

text \<open>
  Four titles that do not come back: \<^verbatim>\<open> T\<close> comes back without its blank, the empty
  title leaves the old heading \<^verbatim>\<open>Old\<close> in place, of a title of two lines only the first
  comes back, and so it is with a title whose two parts a carriage return separates, which
  reads back as a line feed.
\<close>

theorem title_round_trip_counterexample:
  "art_title (the (fst (get_article ''a''
      (snd (save_article ''a'' (Some '' T'') (Some ''text'') None None None None st_empty))))) \<noteq> '' T''
   \<and> art_title (the (fst (get_article ''a''
      (snd (save_article ''a'' (Some []) (Some ''# Old'') None None None None st_empty))))) \<noteq> []
   \<and> art_title (the (fst (get_article ''a''
      (snd (save_article ''a'' (Some ''A\<newline>B'') (Some ''text'') None None None None st_empty))))) \<noteq> ''A\<newline>B''
   \<and> art_title (the (fst (get_article ''a''
      (snd (save_article ''a'' (Some [CHR ''A'', CHR 0x0D, CHR ''B'']) (Some ''text'') None None None None
        st_empty))))) = ''A''"
  by code_simp

section \<open>Reminders\<close>












section \<open>Bulk scheduling\<close>

lemma do_POST_bulk_schedule_invalid:
  "articles = [] \<or> \<not> truthy startDate \<Longrightarrow>
   do_POST_bulk_schedule parse articles startDate intervalDays st = (Inl InvalidRequest, st)"
  by (simp add: do_POST_bulk_schedule_def)

lemma do_POST_bulk_schedule_within_month:
  "fst (do_POST_bulk_schedule fromisoformat [''a'', ''b'', ''c''] (Some ''2024-01-01'') 2 st_empty) =
   Inr [(''a'', ''2024-01-01T00:00''), (''b'', ''2024-01-03T00:00''), (''c'', ''2024-01-05T00:00'')]"
  by code_simp

text \<open>
  Claim C1 at the end of a month. Scheduling \<^verbatim>\<open>a\<close> and \<^verbatim>\<open>b\<close> one day apart from 2024-01-31
  should give \<^verbatim>\<open>b\<close> the first of February. The code advances the date with
  \<^verbatim>\<open>replace(day=day + intervalDays)\<close>, which asks for the 32nd of January and raises
  \<^verbatim>\<open>ValueError\<close>: no pairs are returned, \<^verbatim>\<open>a\<close> is left scheduled and \<^verbatim>\<open>b\<close> untouched. The
  date is advanced after the last id as well, so the same request for \<^verbatim>\<open>a\<close> alone fails
  too.
\<close>

theorem do_POST_bulk_schedule_month_end:
  "fst (do_POST_bulk_schedule fromisoformat [''a'', ''b''] (Some ''2024-01-31'') 1 st_empty)
     = Inl ValueError
   \<and> article_metadata
        (snd (do_POST_bulk_schedule fromisoformat [''a'', ''b''] (Some ''2024-01-31'') 1 st_empty)) ''a''
     = Some \<lparr>status = ''scheduled'', publishDate = Some ''2024-01-31T00:00'', sources = [],
             wordGoal = 1000\<rparr>
   \<and> article_metadata
        (snd (do_POST_bulk_schedule fromisoformat [''a'', ''b''] (Some ''2024-01-31'') 1 st_empty)) ''b''
     = None
   \<and> fst (do_POST_bulk_schedule fromisoformat [''a''] (Some ''2024-01-31'') 1 st_empty)
     = Inl ValueError"
  by code_simp

text \<open>
  So the answer is not the pair list of the claim.
\<close>

theorem do_POST_bulk_schedule_month_end_witness:
  "fst (do_POST_bulk_schedule fromisoformat [''a'', ''b''] (Some ''2024-01-31'') 1 st_empty)
     \<noteq> Inr [(''a'', ''2024-01-31T00:00''), (''b'', ''2024-02-01T00:00'')]
   \<and> fst (do_POST_bulk_schedule fromisoformat [''a''] (Some ''2024-01-31'') 1 st_empty)
     \<noteq> Inr [(''a'', ''2024-01-31T00:00'')]"
  using do_POST_bulk_schedule_month_end by simp

end
